theory Spec2Isabelle
  imports Complex_Main "HOL-Library.Sublist"
begin

section \<open>Shared data model\<close>

text \<open>
  Both pages declare the same \<^verbatim>\<open>VerificationData\<close> interface. The field \<^verbatim>\<open>id\<close> is
  written \<open>id_v\<close> (and \<open>id_b\<close>, \<open>id_u\<close> for blocks and users), since \<open>id\<close> is
  the identity function of HOL. The integrity tag is declared a string, but both pages test
  it for falsiness before use, so it is an optional string here; \<open>None\<close> is JavaScript's
  \<^verbatim>\<open>null\<close>. The confidence is a JavaScript number that arrived as JSON, a finite
  double, hence a real number. A string is the list of the code units of the JavaScript
  string, its length their number; the model covers the strings whose code units are below
  256.
\<close>

type_synonym js_error = string

record User =
  id_u :: string

record VerificationData =
  id_v :: string
  content :: string
  is_ai_generated :: bool
  confidence :: real
  blockchain_hash :: "string option"
  created_at :: string
  user_id :: string

datatype block_status = confirmed | pending

record Block =
  id_b :: string
  hash :: string
  timestamp :: string
  verifier :: string
  transactions :: nat
  status :: block_status

subsection \<open>JavaScript string helpers\<close>

text \<open>\<^verbatim>\<open>s.substring(a, b)\<close> for \<open>a \<le> b\<close>: both ends are clamped to the length.\<close>

definition substring :: "nat \<Rightarrow> nat \<Rightarrow> string \<Rightarrow> string" where
  "substring a b s = take (b - a) (drop a s)"

text \<open>\<^verbatim>\<open>x || y\<close> on an optional string: \<^verbatim>\<open>null\<close> and the empty string are falsy.\<close>

definition truthy :: "string option \<Rightarrow> bool" where
  "truthy x = (case x of None \<Rightarrow> False | Some s \<Rightarrow> s \<noteq> [])"

text \<open>\<^verbatim>\<open>String.fromCharCode(n)\<close> for a code below 256.\<close>

definition fromCharCode :: "nat \<Rightarrow> string" where
  "fromCharCode n = [char_of n]"

text \<open>
  A template literal's rendering of a natural number below \<open>10\<^sup>2\<^sup>1\<close> (its decimal digits)
  and of a string that may be \<^verbatim>\<open>null\<close>.
\<close>

definition digit_char :: "nat \<Rightarrow> char" where
  "digit_char d = ''0123456789'' ! d"

fun nat_to_string :: "nat \<Rightarrow> string" where
  "nat_to_string n =
     (if n < 10 then [digit_char n] else nat_to_string (n div 10) @ [digit_char (n mod 10)])"

declare nat_to_string.simps [simp del]

definition string_or_null :: "string option \<Rightarrow> string" where
  "string_or_null x = (case x of None \<Rightarrow> ''null'' | Some s \<Rightarrow> s)"

section \<open>The list view (BlockchainExplorer)\<close>

subsection \<open>The query and its answer\<close>

text \<open>
  The list view issues one query: all columns of table \<^verbatim>\<open>verifications\<close> whose
  \<^verbatim>\<open>user_id\<close> equals the current user's id, ordered by \<^verbatim>\<open>created_at\<close> descending.
  The awaited answer is an object \<^verbatim>\<open>{ data, error }\<close>, or the await throws.
  The query is recorded as an effect; its answer is an input of the model.
\<close>

record list_query =
  from_table :: string
  select_columns :: string
  eq_user_id :: string
  order_column :: string
  ascending :: bool

record 'a response =
  data :: "'a option"
  error :: "js_error option"

type_synonym list_response = "VerificationData list response"

datatype 'a awaited = Resolved 'a | Rejected js_error

text \<open>
  The detail view's query: the row of \<^verbatim>\<open>verifications\<close> with the given \<^verbatim>\<open>id\<close> and
  \<^verbatim>\<open>user_id\<close>, as a single object (\<^verbatim>\<open>.single()\<close>).
\<close>

record single_query =
  from_table1 :: string
  select_columns1 :: string
  eq_id :: "string option"
  eq_user_id1 :: "string option"

type_synonym single_response = "VerificationData response"

record toast_message =
  title :: string
  description :: string
  variant :: "string option"

record download_file =
  filename :: string
  mime_type :: string
  body :: string

text \<open>
  What the two pages do to the outside: queries, diagnostic output, toasts, navigation,
  the clipboard, and a file handed to the browser through an anchor's \<^verbatim>\<open>download\<close>.
\<close>

datatype effect =
    ListQuery list_query
  | SingleQuery single_query
  | ConsoleError string js_error
  | Toast toast_message
  | Navigate string
  | ClipboardWrite string
  | Download download_file

subsection \<open>Component state\<close>

record explorer_state =
  searchTerm :: string
  selectedBlock :: "Block option"
  userBlocks :: "Block list"
  loading :: bool
  draws :: nat

text \<open>
  \<open>draws\<close> counts the calls of \<^verbatim>\<open>Math.random\<close> made so far; the random source is a
  sequence \<open>rnd16\<close> whose \<open>k\<close>-th element is \<^verbatim>\<open>Math.random().toString(16)\<close> of the
  \<open>k\<close>-th call.
\<close>

definition initial_explorer :: explorer_state where
  "initial_explorer =
     \<lparr>searchTerm = [], selectedBlock = None, userBlocks = [], loading = True, draws = 0\<rparr>"

subsection \<open>Records to blocks\<close>

text \<open>
  The callback of \<^verbatim>\<open>(data || []).map((verification, index) => ...)\<close>. The placeholder
  hash calls \<^verbatim>\<open>Math.random\<close> only when the stored hash is falsy.
\<close>

definition block_of :: "(nat \<Rightarrow> string) \<Rightarrow> nat \<Rightarrow> VerificationData \<Rightarrow> nat \<Rightarrow> Block \<times> nat" where
  "block_of rnd16 k verification index =
     (let (h, k') =
        (if truthy (blockchain_hash verification) then (the (blockchain_hash verification), k)
         else (''0x'' @ substring 2 42 (rnd16 k), Suc k))
      in (\<lparr>id_b = id_v verification,
            hash = h,
            timestamp = created_at verification,
            verifier = ''ScanIt Node '' @ fromCharCode (65 + (index mod 3)),
            transactions = 1,
            status = confirmed\<rparr>, k'))"

fun blocks_from :: "(nat \<Rightarrow> string) \<Rightarrow> nat \<Rightarrow> nat \<Rightarrow> VerificationData list \<Rightarrow> Block list \<times> nat" where
  "blocks_from rnd16 k index [] = ([], k)"
| "blocks_from rnd16 k index (v # vs) =
     (let (b, k') = block_of rnd16 k v index;
          (bs, k'') = blocks_from rnd16 k' (Suc index) vs
      in (b # bs, k''))"

definition blocks :: "(nat \<Rightarrow> string) \<Rightarrow> nat \<Rightarrow> VerificationData list option \<Rightarrow> Block list \<times> nat" where
  "blocks rnd16 k d = blocks_from rnd16 k 0 (case d of None \<Rightarrow> [] | Some rows \<Rightarrow> rows)"

subsection \<open>loadUserVerifications and the effect that calls it\<close>

definition list_query_for :: "User \<Rightarrow> list_query" where
  "list_query_for u =
     \<lparr>from_table = ''verifications'', select_columns = ''*'', eq_user_id = id_u u,
      order_column = ''created_at'', ascending = False\<rparr>"

text \<open>
  The \<^verbatim>\<open>finally\<close> block clears the loading flag on every path that entered the
  \<^verbatim>\<open>try\<close>; the early return on a missing user is before it.
\<close>

definition loadUserVerifications ::
  "(nat \<Rightarrow> string) \<Rightarrow> list_response awaited \<Rightarrow> User option \<Rightarrow> explorer_state
     \<Rightarrow> explorer_state \<times> effect list" where
  "loadUserVerifications rnd16 answer user s =
     (case user of
        None \<Rightarrow> (s, [])
      | Some u \<Rightarrow>
          (case answer of
             Rejected e \<Rightarrow>
               (s\<lparr>loading := False\<rparr>,
                [ListQuery (list_query_for u), ConsoleError ''Error loading user verifications:'' e])
           | Resolved r \<Rightarrow>
               (case error r of
                  Some e \<Rightarrow>
                    (s\<lparr>loading := False\<rparr>,
                     [ListQuery (list_query_for u), ConsoleError ''Error loading verifications:'' e])
                | None \<Rightarrow>
                    (let (bs, k) = blocks rnd16 (draws s) (data r)
                     in (s\<lparr>userBlocks := bs, draws := k, loading := False\<rparr>,
                         [ListQuery (list_query_for u)])))))"

definition user_effect ::
  "(nat \<Rightarrow> string) \<Rightarrow> list_response awaited \<Rightarrow> User option \<Rightarrow> explorer_state
     \<Rightarrow> explorer_state \<times> effect list" where
  "user_effect rnd16 answer user s =
     (case user of
        Some u \<Rightarrow> loadUserVerifications rnd16 answer user s
      | None \<Rightarrow> (s\<lparr>loading := False\<rparr>, []))"

subsection \<open>Events of the list view\<close>

text \<open>
  The component's state changes in three places: the effect that runs when the user
  changes (given here with the answer the query will get, should it be issued), the search
  field's \<^verbatim>\<open>onChange\<close>, and a click on a block card.
\<close>

datatype explorer_event =
    UserChanged "User option" "list_response awaited"
  | SearchTyped string
  | BlockClicked Block

fun explorer_step ::
  "(nat \<Rightarrow> string) \<Rightarrow> explorer_event \<Rightarrow> explorer_state \<Rightarrow> explorer_state \<times> effect list" where
  "explorer_step rnd16 (UserChanged user answer) s = user_effect rnd16 answer user s"
| "explorer_step rnd16 (SearchTyped t) s = (s\<lparr>searchTerm := t\<rparr>, [])"
| "explorer_step rnd16 (BlockClicked b) s = (s\<lparr>selectedBlock := Some b\<rparr>, [])"

fun explorer_run ::
  "(nat \<Rightarrow> string) \<Rightarrow> explorer_event list \<Rightarrow> explorer_state \<Rightarrow> explorer_state \<times> effect list" where
  "explorer_run rnd16 [] s = (s, [])"
| "explorer_run rnd16 (ev # evs) s =
     (let (s1, fx1) = explorer_step rnd16 ev s;
          (s2, fx2) = explorer_run rnd16 evs s1
      in (s2, fx1 @ fx2))"

text \<open>The error of an answer, on either failing path: a thrown await or an error field.\<close>

fun fetch_error :: "'a response awaited \<Rightarrow> js_error option" where
  "fetch_error (Rejected e) = Some e"
| "fetch_error (Resolved r) = error r"

fun fetched_rows :: "list_response awaited \<Rightarrow> VerificationData list" where
  "fetched_rows (Rejected e) = []"
| "fetched_rows (Resolved r) = (case data r of None \<Rightarrow> [] | Some rows \<Rightarrow> rows)"

fun error_label :: "list_response awaited \<Rightarrow> string" where
  "error_label (Rejected e) = ''Error loading user verifications:''"
| "error_label (Resolved r) = ''Error loading verifications:''"

text \<open>The only event that stores a block list: a fetch for a present user that succeeds.\<close>

fun is_successful_fetch :: "explorer_event \<Rightarrow> bool" where
  "is_successful_fetch (UserChanged (Some u) answer) = (fetch_error answer = None)"
| "is_successful_fetch ev = False"

fun is_search :: "explorer_event \<Rightarrow> bool" where
  "is_search (SearchTyped t) = True"
| "is_search ev = False"

subsection \<open>Rendering the list column\<close>

text \<open>
  The left column of the page. The time of a card is \<^verbatim>\<open>new Date(ts).toLocaleString()\<close>,
  which depends on the browser's locale: \<open>toLocaleString\<close> is a parameter. The card's
  animation delay is its index times 0.1 seconds; the index is kept.
\<close>

record block_card =
  card_key :: string
  card_highlighted :: bool
  card_index :: nat
  card_title :: string
  card_badge :: block_status
  card_hash :: string
  card_time :: string
  card_txns :: string

datatype list_column =
    LoadingCard
  | LoginRequiredCard
  | NoVerificationsCard
  | BlockCards "block_card list"

definition render_card ::
  "(string \<Rightarrow> string) \<Rightarrow> Block option \<Rightarrow> Block \<Rightarrow> nat \<Rightarrow> block_card" where
  "render_card toLocaleString sel block index =
     \<lparr>card_key = id_b block,
      card_highlighted = (case sel of None \<Rightarrow> False | Some b \<Rightarrow> id_b b = id_b block),
      card_index = index,
      card_title = ''Block #'' @ id_b block,
      card_badge = status block,
      card_hash = substring 0 20 (hash block) @ ''...'',
      card_time = toLocaleString (timestamp block),
      card_txns = nat_to_string (transactions block) @ '' txns''\<rparr>"

definition render_list ::
  "(string \<Rightarrow> string) \<Rightarrow> User option \<Rightarrow> explorer_state \<Rightarrow> list_column" where
  "render_list toLocaleString user s =
     (if loading s then LoadingCard
      else if user = None then LoginRequiredCard
      else if length (userBlocks s) = 0 then NoVerificationsCard
      else BlockCards (map (\<lambda>(block, index). render_card toLocaleString (selectedBlock s) block index)
                         (zip (userBlocks s) [0 ..< length (userBlocks s)])))"

text \<open>The three verifier labels, in the order in which the positions cycle through them.\<close>

definition rotation :: "string list" where
  "rotation = [''ScanIt Node A'', ''ScanIt Node B'', ''ScanIt Node C'']"


section \<open>The detail view (ReportDetails)\<close>

subsection \<open>Component state and loadReportDetails\<close>

text \<open>The loading flag of this page is written \<open>loading_d\<close>.\<close>

record detail_state =
  report :: "VerificationData option"
  loading_d :: bool

definition initial_detail :: detail_state where
  "initial_detail = \<lparr>report = None, loading_d = True\<rparr>"

definition single_query_for :: "string option \<Rightarrow> User option \<Rightarrow> single_query" where
  "single_query_for rid user =
     \<lparr>from_table1 = ''verifications'', select_columns1 = ''*'', eq_id = rid,
      eq_user_id1 = map_option id_u user\<rparr>"

definition load_error_toast :: toast_message where
  "load_error_toast =
     \<lparr>title = ''Error'', description = ''Failed to load report details'',
      variant = Some ''destructive''\<rparr>"

definition loadReportDetails ::
  "single_response awaited \<Rightarrow> string option \<Rightarrow> User option \<Rightarrow> detail_state
     \<Rightarrow> detail_state \<times> effect list" where
  "loadReportDetails answer rid user s =
     (case answer of
        Rejected e \<Rightarrow>
          (s\<lparr>loading_d := False\<rparr>,
           [SingleQuery (single_query_for rid user), ConsoleError ''Error loading report details:'' e])
      | Resolved r \<Rightarrow>
          (case error r of
             Some e \<Rightarrow>
               (s\<lparr>loading_d := False\<rparr>,
                [SingleQuery (single_query_for rid user),
                 ConsoleError ''Error loading report:'' e,
                 Toast load_error_toast,
                 Navigate ''/reports''])
           | None \<Rightarrow>
               (s\<lparr>report := data r, loading_d := False\<rparr>,
                [SingleQuery (single_query_for rid user)])))"

text \<open>The effect on \<^verbatim>\<open>[id, user]\<close>: \<^verbatim>\<open>if (id && user) loadReportDetails()\<close>.\<close>

definition params_effect ::
  "single_response awaited \<Rightarrow> string option \<Rightarrow> User option \<Rightarrow> detail_state
     \<Rightarrow> detail_state \<times> effect list" where
  "params_effect answer rid user s =
     (if truthy rid \<and> user \<noteq> None then loadReportDetails answer rid user s else (s, []))"


subsection \<open>Side actions\<close>

definition copyHash :: "detail_state \<Rightarrow> effect list" where
  "copyHash s =
     (case report s of
        None \<Rightarrow> []
      | Some r \<Rightarrow>
          (if truthy (blockchain_hash r)
           then [ClipboardWrite (the (blockchain_hash r)),
                 Toast \<lparr>title = ''Copied to clipboard'',
                        description = ''Blockchain hash copied successfully'', variant = None\<rparr>]
           else []))"

text \<open>
  The template literal of \<^verbatim>\<open>downloadReport\<close>, line by line. It opens with a line break
  and closes with an empty line after the content. How a number prints
  (\<^verbatim>\<open>Number.prototype.toString\<close>) belongs to the language and is the parameter
  \<open>numberToString\<close>; the length of a string is a natural number far below the size at which
  numbers print with an exponent, and prints as its decimal digits.
\<close>

definition reportContent :: "(string \<Rightarrow> string) \<Rightarrow> (real \<Rightarrow> string) \<Rightarrow> VerificationData \<Rightarrow> string" where
  "reportContent toLocaleString numberToString r =
     ''\<newline>'' @
     ''ScanIt Detailed Verification Report\<newline>'' @
     ''==================================\<newline>'' @
     ''\<newline>'' @
     ''Content Analysis:\<newline>'' @
     ''- Content ID: '' @ id_v r @ ''\<newline>'' @
     ''- Analysis Date: '' @ toLocaleString (created_at r) @ ''\<newline>'' @
     ''- Blockchain Hash: '' @ string_or_null (blockchain_hash r) @ ''\<newline>'' @
     ''\<newline>'' @
     ''Results:\<newline>'' @
     ''- Classification: '' @ (if is_ai_generated r then ''AI-Generated'' else ''Human-Written'') @ ''\<newline>'' @
     ''- Confidence: '' @ numberToString (confidence r) @ ''%\<newline>'' @
     ''- Content Length: '' @ nat_to_string (length (content r)) @ '' characters\<newline>'' @
     ''\<newline>'' @
     ''Content:\<newline>'' @
     content r @ ''\<newline>'' @
     ''\<newline>''"

text \<open>
  The blob is handed to the browser by a temporary anchor that is clicked and removed; the
  model keeps the file the click downloads.
\<close>

definition downloadReport ::
  "(string \<Rightarrow> string) \<Rightarrow> (real \<Rightarrow> string) \<Rightarrow> detail_state \<Rightarrow> effect list" where
  "downloadReport toLocaleString numberToString s =
     (case report s of
        None \<Rightarrow> []
      | Some r \<Rightarrow>
          [Download \<lparr>filename = ''scanit-report-'' @ id_v r @ ''.txt'',
                     mime_type = ''text/plain'',
                     body = reportContent toLocaleString numberToString r\<rparr>,
           Toast \<lparr>title = ''Report Downloaded'',
                  description = ''Detailed report has been downloaded successfully'',
                  variant = None\<rparr>])"

subsection \<open>Math.random and the arithmetic on its results\<close>

text \<open>
  \<^verbatim>\<open>Math.random()\<close> returns a double in \<open>[0, 1)\<close>. A finite double that is not negative
  is a mantissa below \<open>2\<^sup>5\<^sup>3\<close> times a power of two with exponent at least \<open>-1074\<close>; the
  same value may be written with several mantissas.
\<close>

record double =
  mantissa :: nat
  exponent :: int

definition double_value :: "double \<Rightarrow> real" where
  "double_value d =
     (if 0 \<le> exponent d then real (mantissa d) * 2 ^ nat (exponent d)
      else real (mantissa d) / 2 ^ nat (- exponent d))"

definition unit_draw :: "double \<Rightarrow> bool" where
  "unit_draw d = (mantissa d < 2 ^ 53 \<and> - 1074 \<le> exponent d \<and> double_value d < 1)"

text \<open>
  The product of a double with a small whole number (\<^verbatim>\<open>Math.random() * 30\<close>) is the exact
  product rounded to 53 bits, to the nearest and on a tie to the even mantissa:
  \<open>excess_bits\<close> counts the low bits that do not fit, \<open>round_half_even\<close> divides them away.
  For draws below one the product is far from the largest double.
\<close>

fun excess_bits :: "nat \<Rightarrow> nat" where
  "excess_bits n = (if n < 2 ^ 53 then 0 else Suc (excess_bits (n div 2)))"

declare excess_bits.simps [simp del]

definition round_half_even :: "nat \<Rightarrow> nat \<Rightarrow> nat" where
  "round_half_even n q =
     (let t = n div q; r = n mod q
      in if 2 * r < q then t else if q < 2 * r then Suc t else if even t then t else Suc t)"

definition mul_double :: "nat \<Rightarrow> double \<Rightarrow> double" where
  "mul_double c d =
     (let n = c * mantissa d; s = excess_bits n
      in if s = 0 then \<lparr>mantissa = n, exponent = exponent d\<rparr>
         else \<lparr>mantissa = round_half_even n (2 ^ s), exponent = exponent d + int s\<rparr>)"

text \<open>\<^verbatim>\<open>Math.floor\<close> of a double that is not negative, as the whole number it is.\<close>

definition Math_floor :: "double \<Rightarrow> int" where
  "Math_floor d = \<lfloor>double_value d\<rfloor>"

text \<open>
  \<^verbatim>\<open>Math.floor(Math.random() * 30) + 65\<close> and \<^verbatim>\<open>Math.floor(Math.random() * 25) + 70\<close>,
  as functions of the draw; the sums are far below \<open>2\<^sup>5\<^sup>3\<close> and exact.
\<close>

definition detectgpt_score :: "double \<Rightarrow> int" where
  "detectgpt_score x = Math_floor (mul_double 30 x) + 65"

definition fastdetect_score :: "double \<Rightarrow> int" where
  "fastdetect_score x = Math_floor (mul_double 25 x) + 70"

text \<open>
  \<^verbatim>\<open>Math.random() > 0.7\<close>: the literal \<^verbatim>\<open>0.7\<close> is the double nearest to seven tenths,
  \<open>6305039478318694 / 2\<^sup>5\<^sup>3\<close>, and doubles compare by their values.
\<close>

definition seven_tenths :: double where
  "seven_tenths = \<lparr>mantissa = 6305039478318694, exponent = - 53\<rparr>"

definition shouldHighlight :: "double \<Rightarrow> bool" where
  "shouldHighlight x = (double_value seven_tenths < double_value x)"

subsection \<open>Rendering the detail page\<close>

text \<open>
  The calls of \<^verbatim>\<open>Math.random()\<close> are a sequence \<open>rnd\<close>; a render that starts at position
  \<open>k\<close> draws \<open>rnd k\<close>, \<open>rnd (k + 1)\<close>, ... in the order the JSX evaluates its
  expressions: the two scores first, then one draw for each word.
\<close>

text \<open>\<^verbatim>\<open>s.split(c)\<close> for a one-character separator: one piece more than separators.\<close>

fun split :: "char \<Rightarrow> string \<Rightarrow> string list" where
  "split c [] = [[]]"
| "split c (x # xs) =
     (if x = c then [] # split c xs
      else (case split c xs of
              w # ws \<Rightarrow> (x # w) # ws
            | [] \<Rightarrow> [[x]]))"

record word_span =
  word_class :: string
  word_text :: string

definition suspect_class :: string where
  "suspect_class = ''bg-destructive/20 px-1 rounded border border-destructive/30''"

fun render_words :: "(nat \<Rightarrow> double) \<Rightarrow> nat \<Rightarrow> bool \<Rightarrow> string list \<Rightarrow> word_span list \<times> nat" where
  "render_words rnd k ai [] = ([], k)"
| "render_words rnd k ai (word # ws) =
     (let sh = shouldHighlight (rnd k);
          (spans, k') = render_words rnd (Suc k) ai ws
      in (\<lparr>word_class = (if sh \<and> ai then suspect_class else []),
            word_text = word @ '' ''\<rparr> # spans, k'))"

fun render_paragraphs ::
  "(nat \<Rightarrow> double) \<Rightarrow> nat \<Rightarrow> bool \<Rightarrow> string list \<Rightarrow> word_span list list \<times> nat" where
  "render_paragraphs rnd k ai [] = ([], k)"
| "render_paragraphs rnd k ai (paragraph # ps) =
     (let (spans, k') = render_words rnd k ai (split CHR '' '' paragraph);
          (rest, k'') = render_paragraphs rnd k' ai ps
      in (spans # rest, k''))"

record report_view =
  breadcrumb :: string
  header_date :: string
  badge_variant :: string
  badge_label :: string
  confidence_label :: string
  bar_class :: string
  bar_width :: string
  document_id :: string
  analysis_date :: string
  hash_text :: string
  detectgpt :: int
  fastdetect :: int
  paragraphs :: "word_span list list"

datatype detail_page =
    LoadingPage
  | NotFoundPage
  | ReportPage report_view

definition render_report ::
  "(string \<Rightarrow> string) \<Rightarrow> (string \<Rightarrow> string) \<Rightarrow> (real \<Rightarrow> string) \<Rightarrow> (nat \<Rightarrow> double) \<Rightarrow> nat
     \<Rightarrow> VerificationData \<Rightarrow> report_view \<times> nat" where
  "render_report toLocaleString toLocaleDateString numberToString rnd k r =
     (let (ps, k') = render_paragraphs rnd (k + 2) (is_ai_generated r) (split CHR ''\<newline>'' (content r))
      in (\<lparr>breadcrumb = ''My Reports > '' @ substring 0 8 (id_v r) @ ''...'',
            header_date = toLocaleDateString (created_at r),
            badge_variant = (if is_ai_generated r then ''destructive'' else ''default''),
            badge_label = (if is_ai_generated r then ''AI-Generated'' else ''Human-Written''),
            confidence_label = numberToString (confidence r) @ ''%'',
            bar_class = (if is_ai_generated r
                         then ''bg-gradient-to-r from-destructive to-destructive/80''
                         else ''bg-gradient-to-r from-primary to-primary/80''),
            bar_width = numberToString (confidence r) @ ''%'',
            document_id = ''Document ID: '' @ substring 0 8 (id_v r) @ ''...'',
            analysis_date = toLocaleString (created_at r),
            hash_text = (case blockchain_hash r of None \<Rightarrow> [] | Some h \<Rightarrow> h),
            detectgpt = detectgpt_score (rnd k),
            fastdetect = fastdetect_score (rnd (k + 1)),
            paragraphs = ps\<rparr>, k'))"

definition render_detail ::
  "(string \<Rightarrow> string) \<Rightarrow> (string \<Rightarrow> string) \<Rightarrow> (real \<Rightarrow> string) \<Rightarrow> (nat \<Rightarrow> double) \<Rightarrow> nat
     \<Rightarrow> detail_state \<Rightarrow> detail_page \<times> nat" where
  "render_detail toLocaleString toLocaleDateString numberToString rnd k s =
     (if loading_d s then (LoadingPage, k)
      else (case report s of
              None \<Rightarrow> (NotFoundPage, k)
            | Some r \<Rightarrow>
                (let (v, k') = render_report toLocaleString toLocaleDateString numberToString rnd k r
                 in (ReportPage v, k'))))"

text \<open>
  The bar's width is the inline style \<^verbatim>\<open>width: `${report.confidence}%`\<close>. What a browser
  makes of such a declaration: a number followed by the percent sign is that percentage of
  the track, and a negative one is no valid width, so the declaration is dropped. How the
  browser reads the number is the parameter \<open>readNumber\<close>.
\<close>

definition css_width :: "(string \<Rightarrow> real option) \<Rightarrow> string \<Rightarrow> real option" where
  "css_width readNumber s =
     (case rev s of
        [] \<Rightarrow> None
      | p # ds \<Rightarrow>
          (if p \<noteq> CHR ''%'' then None
           else (case readNumber (rev ds) of
                   None \<Rightarrow> None
                 | Some x \<Rightarrow> (if x < 0 then None else Some x))))"

subsection \<open>Events of the detail view\<close>

text \<open>
  The state changes only in the effect on the route's id and the user. The buttons exist only
  on the pages that render them: none while loading, the way back on the other two, download
  and copy on the report page (where both handlers test the report again).
\<close>

datatype detail_event =
    ParamsChanged "string option" "User option" "single_response awaited"
  | BackClicked
  | DownloadClicked
  | CopyClicked

fun detail_step ::
  "(string \<Rightarrow> string) \<Rightarrow> (real \<Rightarrow> string) \<Rightarrow> detail_event \<Rightarrow> detail_state
     \<Rightarrow> detail_state \<times> effect list" where
  "detail_step toLocaleString numberToString (ParamsChanged rid user answer) s =
     params_effect answer rid user s"
| "detail_step toLocaleString numberToString BackClicked s =
     (s, if loading_d s then [] else [Navigate ''/reports''])"
| "detail_step toLocaleString numberToString DownloadClicked s =
     (s, if loading_d s then [] else downloadReport toLocaleString numberToString s)"
| "detail_step toLocaleString numberToString CopyClicked s =
     (s, if loading_d s then [] else copyHash s)"

fun detail_run ::
  "(string \<Rightarrow> string) \<Rightarrow> (real \<Rightarrow> string) \<Rightarrow> detail_event list \<Rightarrow> detail_state
     \<Rightarrow> detail_state \<times> effect list" where
  "detail_run toLocaleString numberToString [] s = (s, [])"
| "detail_run toLocaleString numberToString (ev # evs) s =
     (let (s1, fx1) = detail_step toLocaleString numberToString ev s;
          (s2, fx2) = detail_run toLocaleString numberToString evs s1
      in (s2, fx1 @ fx2))"

text \<open>An event that can start a fetch: both the route's id and the user are present.\<close>

fun params_present :: "detail_event \<Rightarrow> bool" where
  "params_present (ParamsChanged rid user answer) = (truthy rid \<and> user \<noteq> None)"
| "params_present ev = False"

fun is_query :: "effect \<Rightarrow> bool" where
  "is_query (ListQuery q) = True"
| "is_query (SingleQuery q) = True"
| "is_query fx = False"


section \<open>Example data\<close>

text \<open>
  The owner and the two records of the spec's example, newest first, the second without a
  stored hash; a second user; a third record with a fractional confidence and a tab in its
  content; the answer that carries the first two records; sources of random draws, among
  them the doubles nearest to 0.3, 0.12 and 0.7; and a printer and a reader of numbers that
  agree with the language and the browser at the confidences of the examples.
\<close>

definition user_U :: User where
  "user_U = \<lparr>id_u = ''U''\<rparr>"

definition user_V :: User where
  "user_V = \<lparr>id_u = ''V''\<rparr>"

definition record_a1 :: VerificationData where
  "record_a1 =
     \<lparr>id_v = ''a1'', content = ''one  two\<newline>three'', is_ai_generated = True, confidence = 87,
      blockchain_hash = Some ''0xabc'', created_at = ''2024-01-02'', user_id = ''U''\<rparr>"

definition record_a2 :: VerificationData where
  "record_a2 =
     \<lparr>id_v = ''a2'', content = ''four'', is_ai_generated = False, confidence = 150,
      blockchain_hash = None, created_at = ''2024-01-01'', user_id = ''U''\<rparr>"

definition record_a3 :: VerificationData where
  "record_a3 =
     \<lparr>id_v = ''a3'', content = [CHR ''a'', CHR 0x09, CHR ''b''], is_ai_generated = True,
      confidence = 175 / 2, blockchain_hash = None, created_at = ''2023-12-31'', user_id = ''U''\<rparr>"

definition answer_a1_a2 :: "list_response awaited" where
  "answer_a1_a2 = Resolved \<lparr>data = Some [record_a1, record_a2], error = None\<rparr>"

definition draws16 :: "nat \<Rightarrow> string" where
  "draws16 = (!) [''0.8f3a'', ''0.c1d2'']"

definition draws_double :: "nat \<Rightarrow> double" where
  "draws_double =
     (!) [\<lparr>mantissa = 1, exponent = - 1\<rparr>,
          \<lparr>mantissa = 8646911284551352, exponent = - 56\<rparr>,
          \<lparr>mantissa = 3, exponent = - 2\<rparr>,
          \<lparr>mantissa = 1, exponent = - 3\<rparr>,
          \<lparr>mantissa = 7, exponent = - 3\<rparr>,
          \<lparr>mantissa = 6305039478318694, exponent = - 53\<rparr>]"

definition numberToString_example :: "real \<Rightarrow> string" where
  "numberToString_example x =
     (if x = 87 then ''87'' else if x = 175 / 2 then ''87.5'' else if x = 150 then ''150''
      else if x = - 5 then ''-5'' else ''0'')"

definition readNumber_example :: "string \<Rightarrow> real option" where
  "readNumber_example =
     map_of [(''87'', 87), (''87.5'', 175 / 2), (''150'', 150), (''-5'', - 5), (''0'', 0)]"

section \<open>Properties of the list view\<close>

subsection \<open>Records to blocks\<close>

lemma fromCharCode_ABC:
  "fromCharCode 65 = ''A''" "fromCharCode 66 = ''B''" "fromCharCode 67 = ''C''"
  unfolding fromCharCode_def by code_simp+

lemma verifier_label_rotation:
  "''ScanIt Node '' @ fromCharCode (65 + (i mod 3)) = rotation ! (i mod 3)"
proof -
  have "i mod 3 = 0 \<or> i mod 3 = 1 \<or> i mod 3 = 2" by linarith
  then show ?thesis
    using fromCharCode_ABC by (auto simp: rotation_def)
qed

lemma block_of_fields:
  "id_b (fst (block_of rnd16 k v i)) = id_v v"
  "timestamp (fst (block_of rnd16 k v i)) = created_at v"
  "transactions (fst (block_of rnd16 k v i)) = 1"
  "status (fst (block_of rnd16 k v i)) = confirmed"
  by (simp_all add: block_of_def split_beta Let_def)

lemma block_of_verifier: "verifier (fst (block_of rnd16 k v i)) = rotation ! (i mod 3)"
proof -
  have "verifier (fst (block_of rnd16 k v i)) = ''ScanIt Node '' @ fromCharCode (65 + (i mod 3))"
    by (simp add: block_of_def split_beta Let_def)
  also have "\<dots> = rotation ! (i mod 3)"
    by (rule verifier_label_rotation)
  finally show ?thesis .
qed

lemma blocks_from_length: "length (fst (blocks_from rnd16 k i vs)) = length vs"
  by (induction vs arbitrary: k i) (auto simp: split_beta Let_def)

lemma blocks_from_ids: "map id_b (fst (blocks_from rnd16 k i vs)) = map id_v vs"
  by (induction vs arbitrary: k i) (auto simp: split_beta Let_def block_of_fields)

lemma blocks_from_timestamps: "map timestamp (fst (blocks_from rnd16 k i vs)) = map created_at vs"
  by (induction vs arbitrary: k i) (auto simp: split_beta Let_def block_of_fields)

lemma blocks_from_verifier:
  "j < length vs \<Longrightarrow>
     verifier (fst (blocks_from rnd16 k i vs) ! j) = rotation ! ((i + j) mod 3)"
proof (induction vs arbitrary: k i j)
  case Nil
  then show ?case by simp
next
  case (Cons v vs)
  show ?case
  proof (cases j)
    case 0
    then show ?thesis
      by (simp add: split_beta Let_def block_of_verifier)
  next
    case (Suc j')
    with Cons.prems have "j' < length vs" by simp
    from Cons.IH [OF this] Suc show ?thesis
      by (simp add: split_beta Let_def)
  qed
qed

subsection \<open>The two outcomes of a fetch\<close>

lemma load_success_blocks:
  "fetch_error answer = None \<Longrightarrow>
     userBlocks (fst (loadUserVerifications rnd16 answer (Some u) s)) =
       fst (blocks_from rnd16 (draws s) 0 (fetched_rows answer))"
  by (cases answer)
     (auto simp: loadUserVerifications_def blocks_def split_beta Let_def split: option.splits)

lemma load_success_effects:
  "fetch_error answer = None \<Longrightarrow>
     snd (loadUserVerifications rnd16 answer (Some u) s) = [ListQuery (list_query_for u)]"
  by (cases answer)
     (auto simp: loadUserVerifications_def blocks_def split_beta Let_def split: option.splits)

lemma load_failure:
  "fetch_error answer = Some e \<Longrightarrow>
     loadUserVerifications rnd16 answer (Some u) s =
       (s\<lparr>loading := False\<rparr>, [ListQuery (list_query_for u), ConsoleError (error_label answer) e])"
  by (cases answer) (auto simp: loadUserVerifications_def split: option.splits)

lemma other_events_keep_blocks:
  "\<not> is_successful_fetch ev \<Longrightarrow> userBlocks (fst (explorer_step rnd16 ev s)) = userBlocks s"
proof (cases ev)
  case (UserChanged user answer)
  assume n: "\<not> is_successful_fetch ev"
  show ?thesis
  proof (cases user)
    case None
    with UserChanged show ?thesis by (simp add: user_effect_def)
  next
    case (Some u)
    with UserChanged n obtain e where "fetch_error answer = Some e" by auto
    from load_failure [OF this] UserChanged Some show ?thesis
      by (simp add: user_effect_def)
  qed
qed simp_all

lemma run_keeps_blocks:
  "\<forall>ev \<in> set evs. \<not> is_successful_fetch ev \<Longrightarrow>
     userBlocks (fst (explorer_run rnd16 evs s)) = userBlocks s"
proof (induction evs arbitrary: s)
  case Nil
  then show ?case by simp
next
  case (Cons ev evs)
  then have "userBlocks (fst (explorer_run rnd16 evs (fst (explorer_step rnd16 ev s))))
      = userBlocks (fst (explorer_step rnd16 ev s))"
    by simp
  also from Cons.prems have "\<dots> = userBlocks s"
    by (simp add: other_events_keep_blocks)
  finally show ?case by (simp add: split_beta Let_def)
qed

text \<open>
  C1. After every successful fetch the stored block list is a one-to-one projection of the
  fetched records, in their order: as many blocks as records, the ids and the timestamps
  of the blocks are those of the records position by position. The query that was
  answered is the one for the current user's id. The stored list does not depend on the
  list stored before (it is replaced as a whole), and any later events other than a
  successful fetch leave the stored blocks as they are.
\<close>

theorem blocks_project_fetched_records:
  assumes "fetch_error answer = None"
  shows "length (userBlocks (fst (loadUserVerifications rnd16 answer (Some u) s)))
           = length (fetched_rows answer)
       \<and> map id_b (userBlocks (fst (loadUserVerifications rnd16 answer (Some u) s)))
           = map id_v (fetched_rows answer)
       \<and> map timestamp (userBlocks (fst (loadUserVerifications rnd16 answer (Some u) s)))
           = map created_at (fetched_rows answer)
       \<and> snd (loadUserVerifications rnd16 answer (Some u) s) = [ListQuery (list_query_for u)]
       \<and> eq_user_id (list_query_for u) = id_u u
       \<and> userBlocks (fst (loadUserVerifications rnd16 answer (Some u) (s\<lparr>userBlocks := old\<rparr>)))
           = userBlocks (fst (loadUserVerifications rnd16 answer (Some u) s))
       \<and> ((\<forall>ev \<in> set evs. \<not> is_successful_fetch ev) \<longrightarrow>
            userBlocks (fst (explorer_run rnd16 evs (fst (loadUserVerifications rnd16 answer (Some u) s))))
              = userBlocks (fst (loadUserVerifications rnd16 answer (Some u) s)))"
  using assms
  by (simp add: load_success_blocks load_success_effects blocks_from_length blocks_from_ids
        blocks_from_timestamps run_keeps_blocks list_query_for_def)

theorem blocks_project_fetched_records_witness:
  "fetch_error answer_a1_a2 = None
   \<and> map id_b (userBlocks (fst (loadUserVerifications draws16 answer_a1_a2 (Some user_U) initial_explorer)))
       = [''a1'', ''a2'']
   \<and> map timestamp (userBlocks (fst (loadUserVerifications draws16 answer_a1_a2 (Some user_U) initial_explorer)))
       = [''2024-01-02'', ''2024-01-01'']
   \<and> snd (loadUserVerifications draws16 answer_a1_a2 (Some user_U) initial_explorer)
       = [ListQuery \<lparr>from_table = ''verifications'', select_columns = ''*'', eq_user_id = ''U'',
                      order_column = ''created_at'', ascending = False\<rparr>]
   \<and> userBlocks (fst (explorer_run draws16
          [SearchTyped ''a2'', UserChanged None answer_a1_a2, UserChanged (Some user_V) (Rejected ''offline'')]
          (fst (loadUserVerifications draws16 answer_a1_a2 (Some user_U) initial_explorer))))
       = userBlocks (fst (loadUserVerifications draws16 answer_a1_a2 (Some user_U) initial_explorer))"
proof -
  have others: "\<forall>ev \<in> set [SearchTyped ''a2'', UserChanged None answer_a1_a2,
      UserChanged (Some user_V) (Rejected ''offline'')]. \<not> is_successful_fetch ev"
    by simp
  from blocks_project_fetched_records [of answer_a1_a2 draws16 user_U initial_explorer
      "userBlocks initial_explorer"
      "[SearchTyped ''a2'', UserChanged None answer_a1_a2, UserChanged (Some user_V) (Rejected ''offline'')]"]
    others
  show ?thesis
    by (simp add: answer_a1_a2_def record_a1_def record_a2_def user_U_def list_query_for_def)
qed

text \<open>
  C2. After a successful fetch the verifier label of the block at position \<open>i\<close> is the
  entry \<open>i mod 3\<close> of the fixed rotation of three names; when two records were fetched the
  labels are the first and the second entry, in list order.
\<close>

theorem verifier_label_is_rotation:
  assumes "fetch_error answer = None" and "i < length (fetched_rows answer)"
  shows "verifier (userBlocks (fst (loadUserVerifications rnd16 answer (Some u) s)) ! i)
           = rotation ! (i mod 3)
       \<and> length rotation = 3
       \<and> (length (fetched_rows answer) = 2 \<longrightarrow>
            map verifier (userBlocks (fst (loadUserVerifications rnd16 answer (Some u) s)))
              = [rotation ! 0, rotation ! 1])"
proof -
  let ?bs = "userBlocks (fst (loadUserVerifications rnd16 answer (Some u) s))"
  have bs: "?bs = fst (blocks_from rnd16 (draws s) 0 (fetched_rows answer))"
    using assms(1) by (rule load_success_blocks)
  have nth: "verifier (?bs ! j) = rotation ! (j mod 3)" if "j < length (fetched_rows answer)" for j
    using blocks_from_verifier [OF that, of rnd16 "draws s" 0] bs by simp
  have len: "length ?bs = length (fetched_rows answer)"
    by (simp add: bs blocks_from_length)
  have two: "map verifier ?bs = [rotation ! 0, rotation ! 1]" if "length (fetched_rows answer) = 2"
  proof -
    from that len have l2: "length ?bs = 2" by simp
    then obtain b0 b1 where b: "?bs = [b0, b1]"
      by (metis (no_types, lifting) One_nat_def Suc_1 length_0_conv length_Suc_conv)
    from nth [of 0] nth [of 1] that b show ?thesis by simp
  qed
  from nth [OF assms(2)] two show ?thesis by (simp add: rotation_def)
qed

theorem verifier_label_is_rotation_witness:
  "fetch_error answer_a1_a2 = None
   \<and> (1::nat) < length (fetched_rows answer_a1_a2)
   \<and> length (fetched_rows answer_a1_a2) = 2
   \<and> verifier (userBlocks (fst (loadUserVerifications draws16 answer_a1_a2 (Some user_U) initial_explorer)) ! 1)
       = ''ScanIt Node B''
   \<and> map verifier (userBlocks (fst (loadUserVerifications draws16 answer_a1_a2 (Some user_U) initial_explorer)))
       = [''ScanIt Node A'', ''ScanIt Node B'']"
  using verifier_label_is_rotation [of answer_a1_a2 1 draws16 user_U initial_explorer]
  by (simp add: answer_a1_a2_def rotation_def)

subsection \<open>A failed fetch\<close>

text \<open>
  C4, as the code has it. A fetch that fails, by an error field or by a thrown await, logs
  the error after the query and does nothing else besides clearing the loading flag: the
  stored block list is the one from before the fetch. When that list was empty (as it is
  until a fetch has succeeded) the list column shows the card for an owner without
  records, the same as after a successful fetch of no rows; no effect addresses the user.
\<close>

theorem failed_fetch_keeps_block_list:
  assumes "fetch_error answer = Some e"
  shows "userBlocks (fst (loadUserVerifications rnd16 answer (Some u) s)) = userBlocks s
       \<and> loading (fst (loadUserVerifications rnd16 answer (Some u) s)) = False
       \<and> snd (loadUserVerifications rnd16 answer (Some u) s)
           = [ListQuery (list_query_for u), ConsoleError (error_label answer) e]
       \<and> (userBlocks s = [] \<longrightarrow>
            render_list tls (Some u) (fst (loadUserVerifications rnd16 answer (Some u) s))
              = NoVerificationsCard
          \<and> render_list tls (Some u) (fst (loadUserVerifications rnd16 answer (Some u) s))
              = render_list tls (Some u)
                  (fst (loadUserVerifications rnd16 (Resolved \<lparr>data = Some [], error = None\<rparr>) (Some u) s)))"
proof -
  have ok: "fetch_error (Resolved \<lparr>data = Some [], error = None\<rparr> :: list_response awaited) = None"
    by simp
  have empty: "render_list tls (Some u)
      (fst (loadUserVerifications rnd16 (Resolved \<lparr>data = Some [], error = None\<rparr>) (Some u) s))
        = NoVerificationsCard"
    by (simp add: loadUserVerifications_def blocks_def render_list_def)
  from load_failure [OF assms, of rnd16 u s] empty show ?thesis
    by (simp add: render_list_def)
qed

theorem failed_fetch_keeps_block_list_witness:
  "fetch_error (Rejected ''network down'' :: list_response awaited) = Some ''network down''
   \<and> userBlocks initial_explorer = []
   \<and> loadUserVerifications draws16 (Rejected ''network down'') (Some user_U) initial_explorer
       = (initial_explorer\<lparr>loading := False\<rparr>,
          [ListQuery (list_query_for user_U),
           ConsoleError ''Error loading user verifications:'' ''network down''])
   \<and> render_list id (Some user_U)
        (fst (loadUserVerifications draws16 (Rejected ''network down'') (Some user_U) initial_explorer))
       = NoVerificationsCard"
  using failed_fetch_keeps_block_list
      [where answer = "Rejected ''network down''" and e = "''network down''" and ?rnd16.0 = draws16
         and u = user_U and s = initial_explorer and tls = id]
  by (simp add: initial_explorer_def loadUserVerifications_def)

text \<open>
  The claim as the spec words it, that the list is left empty after every failed fetch,
  fails when an earlier fetch succeeded: user U's fetch stores a block, U logs out (the page
  stays, showing its login card), V logs in and V's fetch is answered with an error. The
  block of the first fetch is still stored, and it is what the list column shows to V.
\<close>

theorem failed_fetch_list_not_empty_counterexample:
  "fetch_error (Resolved \<lparr>data = None, error = Some ''timeout''\<rparr> :: list_response awaited) = Some ''timeout''
   \<and> userBlocks (fst (explorer_run draws16
        [UserChanged (Some user_U) (Resolved \<lparr>data = Some [record_a1], error = None\<rparr>),
         UserChanged None (Resolved \<lparr>data = None, error = None\<rparr>),
         UserChanged (Some user_V) (Resolved \<lparr>data = None, error = Some ''timeout''\<rparr>)]
        initial_explorer))
       = [\<lparr>id_b = ''a1'', hash = ''0xabc'', timestamp = ''2024-01-02'',
           verifier = ''ScanIt Node A'', transactions = 1, status = confirmed\<rparr>]
   \<and> userBlocks (fst (explorer_run draws16
        [UserChanged (Some user_U) (Resolved \<lparr>data = Some [record_a1], error = None\<rparr>),
         UserChanged None (Resolved \<lparr>data = None, error = None\<rparr>),
         UserChanged (Some user_V) (Resolved \<lparr>data = None, error = Some ''timeout''\<rparr>)]
        initial_explorer)) \<noteq> []
   \<and> render_list id (Some user_V) (fst (explorer_run draws16
        [UserChanged (Some user_U) (Resolved \<lparr>data = Some [record_a1], error = None\<rparr>),
         UserChanged None (Resolved \<lparr>data = None, error = None\<rparr>),
         UserChanged (Some user_V) (Resolved \<lparr>data = None, error = Some ''timeout''\<rparr>)]
        initial_explorer)) \<noteq> NoVerificationsCard"
  by (simp add: user_effect_def loadUserVerifications_def blocks_def block_of_def truthy_def
        record_a1_def initial_explorer_def fromCharCode_ABC render_list_def)

subsection \<open>The search field\<close>

lemma render_list_searchTerm [simp]:
  "render_list tls user (s\<lparr>searchTerm := t\<rparr>) = render_list tls user s"
  by (simp add: render_list_def)

lemma step_searchTerm:
  "\<not> is_search ev \<Longrightarrow>
     fst (explorer_step rnd16 ev (s\<lparr>searchTerm := t\<rparr>)) = (fst (explorer_step rnd16 ev s))\<lparr>searchTerm := t\<rparr>"
proof (cases ev)
  case (UserChanged user answer)
  then show ?thesis
    by (cases answer)
       (auto simp: user_effect_def loadUserVerifications_def split_beta Let_def
             split: option.splits)
qed simp_all

lemma run_without_search:
  "(fst (explorer_run rnd16 evs s))\<lparr>searchTerm := t\<rparr> =
     (fst (explorer_run rnd16 (filter (\<lambda>ev. \<not> is_search ev) evs) (s\<lparr>searchTerm := t\<rparr>)))\<lparr>searchTerm := t\<rparr>"
proof (induction evs arbitrary: s)
  case Nil
  then show ?case by simp
next
  case (Cons ev evs)
  show ?case
  proof (cases "is_search ev")
    case True
    then obtain x where ev: "ev = SearchTyped x" by (cases ev) auto
    from Cons.IH [of "s\<lparr>searchTerm := x\<rparr>"] ev show ?thesis
      by (simp add: split_beta Let_def)
  next
    case False
    from Cons.IH [of "fst (explorer_step rnd16 ev s)"] False show ?thesis
      by (simp add: split_beta Let_def step_searchTerm)
  qed
qed

text \<open>
  C8. Two runs of the list view that start from the same state and see the same events
  apart from what is typed into the search field (any texts, typed at any moments) store
  the same blocks and render the same list column: the search term is kept in the state
  and has no part in what is rendered.
\<close>

theorem search_term_noninterference:
  assumes "filter (\<lambda>ev. \<not> is_search ev) evs1 = filter (\<lambda>ev. \<not> is_search ev) evs2"
  shows "render_list tls user (fst (explorer_run rnd16 evs1 (s\<lparr>searchTerm := t1\<rparr>)))
           = render_list tls user (fst (explorer_run rnd16 evs2 (s\<lparr>searchTerm := t2\<rparr>)))
       \<and> userBlocks (fst (explorer_run rnd16 evs1 (s\<lparr>searchTerm := t1\<rparr>)))
           = userBlocks (fst (explorer_run rnd16 evs2 (s\<lparr>searchTerm := t2\<rparr>)))
       \<and> searchTerm (fst (explorer_step rnd16 (SearchTyped t) s)) = t"
proof -
  let ?r1 = "fst (explorer_run rnd16 evs1 (s\<lparr>searchTerm := t1\<rparr>))"
  let ?r2 = "fst (explorer_run rnd16 evs2 (s\<lparr>searchTerm := t2\<rparr>))"
  have "?r1\<lparr>searchTerm := []\<rparr> = ?r2\<lparr>searchTerm := []\<rparr>"
    using run_without_search [where ?rnd16.0 = rnd16 and evs = evs1 and s = "s\<lparr>searchTerm := t1\<rparr>" and t = "[]"]
          run_without_search [where ?rnd16.0 = rnd16 and evs = evs2 and s = "s\<lparr>searchTerm := t2\<rparr>" and t = "[]"]
          assms
    by simp
  then have "render_list tls user (?r1\<lparr>searchTerm := []\<rparr>) = render_list tls user (?r2\<lparr>searchTerm := []\<rparr>)"
    and "userBlocks (?r1\<lparr>searchTerm := []\<rparr>) = userBlocks (?r2\<lparr>searchTerm := []\<rparr>)"
    by simp_all
  then show ?thesis by simp
qed

theorem search_term_noninterference_witness:
  "filter (\<lambda>ev. \<not> is_search ev) [UserChanged (Some user_U) answer_a1_a2, SearchTyped ''a2'']
     = filter (\<lambda>ev. \<not> is_search ev) [SearchTyped ''zz'', UserChanged (Some user_U) answer_a1_a2]
   \<and> render_list id (Some user_U) (fst (explorer_run draws16
         [UserChanged (Some user_U) answer_a1_a2, SearchTyped ''a2''] (initial_explorer\<lparr>searchTerm := []\<rparr>)))
     = render_list id (Some user_U) (fst (explorer_run draws16
         [SearchTyped ''zz'', UserChanged (Some user_U) answer_a1_a2] (initial_explorer\<lparr>searchTerm := ''q''\<rparr>)))
   \<and> map card_key (case render_list id (Some user_U) (fst (explorer_run draws16
         [UserChanged (Some user_U) answer_a1_a2, SearchTyped ''a2''] (initial_explorer\<lparr>searchTerm := []\<rparr>)))
        of BlockCards cs \<Rightarrow> cs | _ \<Rightarrow> []) = [''a1'', ''a2'']"
  using search_term_noninterference
      [where ?evs1.0 = "[UserChanged (Some user_U) answer_a1_a2, SearchTyped ''a2'']"
         and ?evs2.0 = "[SearchTyped ''zz'', UserChanged (Some user_U) answer_a1_a2]"
         and tls = id and user = "Some user_U" and ?rnd16.0 = draws16 and s = initial_explorer
         and ?t1.0 = "[]" and ?t2.0 = "''q''"]
  by (simp add: user_effect_def loadUserVerifications_def blocks_def block_of_def truthy_def
        answer_a1_a2_def record_a1_def record_a2_def initial_explorer_def render_list_def
        render_card_def draws16_def)

section \<open>Properties of the detail view\<close>

subsection \<open>Errors of the fetch\<close>







subsection \<open>Absent route id or user\<close>

lemma step_while_loading:
  "loading_d s \<Longrightarrow> \<not> params_present ev \<Longrightarrow> detail_step tls nts ev s = (s, [])"
  by (cases ev) (auto simp: params_effect_def)

lemma run_while_loading:
  "loading_d s \<Longrightarrow> \<forall>ev \<in> set evs. \<not> params_present ev \<Longrightarrow> detail_run tls nts evs s = (s, [])"
  by (induction evs) (simp_all add: step_while_loading)

text \<open>
  C10. From the mounted view, as long as every run of the effect finds the route's id or
  the user absent, nothing happens: no query is issued, no toast, no navigation, the state
  is the initial one with the loading flag set, and the page rendered is the loading
  placeholder, after any number of such events.
\<close>

theorem absent_params_stay_loading:
  assumes "\<forall>ev \<in> set evs. \<not> params_present ev"
  shows "detail_run tls nts evs initial_detail = (initial_detail, [])
       \<and> loading_d (fst (detail_run tls nts evs initial_detail)) = True
       \<and> filter is_query (snd (detail_run tls nts evs initial_detail)) = []
       \<and> render_detail tls tlds nts rnd k (fst (detail_run tls nts evs initial_detail)) = (LoadingPage, k)"
proof -
  have "loading_d initial_detail" by (simp add: initial_detail_def)
  from run_while_loading [OF this assms, of tls nts] show ?thesis
    by (simp add: initial_detail_def render_detail_def)
qed

theorem absent_params_stay_loading_witness:
  "detail_run id numberToString_example
                [ParamsChanged None (Some user_U) (Resolved \<lparr>data = Some record_a1, error = None\<rparr>),
                 ParamsChanged (Some ''a1'') None (Resolved \<lparr>data = Some record_a1, error = None\<rparr>),
                 ParamsChanged (Some []) (Some user_U) (Rejected ''x''),
                 BackClicked] initial_detail = (\<lparr>report = None, loading_d = True\<rparr>, [])
   \<and> render_detail id id numberToString_example draws_double 0 (fst (detail_run id numberToString_example
                [ParamsChanged None (Some user_U) (Resolved \<lparr>data = Some record_a1, error = None\<rparr>),
                 ParamsChanged (Some ''a1'') None (Resolved \<lparr>data = Some record_a1, error = None\<rparr>),
                 ParamsChanged (Some []) (Some user_U) (Rejected ''x''),
                 BackClicked] initial_detail)) = (LoadingPage, 0)"
proof -
  have absent: "\<forall>ev \<in> set [ParamsChanged None (Some user_U) (Resolved \<lparr>data = Some record_a1, error = None\<rparr>),
                 ParamsChanged (Some ''a1'') None (Resolved \<lparr>data = Some record_a1, error = None\<rparr>),
                 ParamsChanged (Some []) (Some user_U) (Rejected ''x''),
                 BackClicked]. \<not> params_present ev"
    by (simp add: truthy_def)
  from absent_params_stay_loading [OF absent, of id numberToString_example id draws_double 0]
  show ?thesis
    by (simp add: initial_detail_def params_effect_def truthy_def)
qed

subsection \<open>The downloaded report\<close>





subsection \<open>The confidence bar\<close>

lemma css_width_percent:
  "css_width readNumber (t @ ''%'') =
     (case readNumber t of None \<Rightarrow> None | Some x \<Rightarrow> (if x < 0 then None else Some x))"
  by (simp add: css_width_def)

text \<open>
  C6. The width of the confidence bar is, for every record, the number the language prints
  for the record's confidence, followed by the percent sign: nothing clamps it, whatever
  the confidence is. Where the browser reads the printed number back as the number it is,
  the width of a confidence that is not negative is that very percentage of the track, in
  the range from 0 to 100 and above it alike: the identity, a linear function, so that a
  larger confidence gives a wider bar. A negative confidence gives a declaration the browser
  drops.
\<close>

theorem bar_width_is_confidence:
  assumes "readNumber (nts (confidence r1)) = Some (confidence r1)"
    and "readNumber (nts (confidence r2)) = Some (confidence r2)"
  shows "bar_width (fst (render_report tls tlds nts rnd k r1)) = nts (confidence r1) @ ''%''
       \<and> (0 \<le> confidence r1 \<longrightarrow>
            css_width readNumber (bar_width (fst (render_report tls tlds nts rnd k r1)))
              = Some (confidence r1))
       \<and> (confidence r1 < 0 \<longrightarrow>
            css_width readNumber (bar_width (fst (render_report tls tlds nts rnd k r1))) = None)
       \<and> (0 \<le> confidence r1 \<and> confidence r1 \<le> confidence r2 \<longrightarrow>
            (\<exists>w1 w2. css_width readNumber (bar_width (fst (render_report tls tlds nts rnd k r1))) = Some w1
                   \<and> css_width readNumber (bar_width (fst (render_report tls tlds nts rnd k r2))) = Some w2
                   \<and> w1 \<le> w2 \<and> w2 - w1 = confidence r2 - confidence r1))"
proof -
  have w: "bar_width (fst (render_report tls tlds nts rnd k x)) = nts (confidence x) @ ''%''" for x
    by (simp add: render_report_def split_beta)
  show ?thesis
    using assms by (simp add: w css_width_percent)
qed

theorem bar_width_is_confidence_witness:
  "readNumber_example (numberToString_example (confidence record_a3)) = Some (confidence record_a3)
   \<and> readNumber_example (numberToString_example (confidence record_a2)) = Some (confidence record_a2)
   \<and> 0 \<le> confidence record_a3 \<and> confidence record_a3 \<le> confidence record_a2
   \<and> bar_width (fst (render_report id id numberToString_example draws_double 0 record_a3)) = ''87.5%''
   \<and> bar_width (fst (render_report id id numberToString_example draws_double 0 record_a2)) = ''150%''
   \<and> css_width readNumber_example ''87.5%'' = Some (175 / 2)
   \<and> css_width readNumber_example ''150%'' = Some 150
   \<and> css_width readNumber_example ''-5%'' = None"
  using bar_width_is_confidence
      [where readNumber = readNumber_example and nts = numberToString_example
         and ?r1.0 = record_a3 and ?r2.0 = record_a2 and tls = id and tlds = id
         and rnd = draws_double and k = 0]
  by (simp add: record_a2_def record_a3_def numberToString_example_def readNumber_example_def
        render_report_def split_beta css_width_def)

subsection \<open>Rounding of the products\<close>

lemma double_value_powi: "double_value d = real (mantissa d) * 2 powi exponent d"
  by (simp add: double_value_def power_int_def field_simps)

lemma double_value_nonneg: "0 \<le> double_value d"
  by (simp add: double_value_def)

lemma excess_bits_lower: "0 < excess_bits n \<Longrightarrow> 2 ^ 52 * 2 ^ excess_bits n \<le> n"
proof (induction n rule: excess_bits.induct)
  case (1 n)
  from "1.prems" have big: "\<not> n < 2 ^ 53"
    by (subst (asm) excess_bits.simps) (simp split: if_splits)
  then have eq: "excess_bits n = Suc (excess_bits (n div 2))"
    by (subst excess_bits.simps) simp
  show ?case
  proof (cases "excess_bits (n div 2) = 0")
    case True
    with eq big show ?thesis by simp
  next
    case False
    with 1 big have "2 ^ 52 * 2 ^ excess_bits (n div 2) \<le> n div 2" by simp
    then have "2 * (2 ^ 52 * 2 ^ excess_bits (n div 2)) \<le> n" by linarith
    with eq show ?thesis by simp
  qed
qed

lemma round_half_even_error:
  assumes "0 < q"
  shows "2 * \<bar>real (round_half_even n q * q) - real n\<bar> \<le> real q"
proof -
  let ?t = "n div q" and ?r = "n mod q"
  have n: "real n = real ?t * real q + real ?r"
    by (metis div_mult_mod_eq of_nat_add of_nat_mult)
  have r: "?r < q" using assms by simp
  consider "2 * ?r < q" | "q < 2 * ?r" | "2 * ?r = q" by linarith
  then show ?thesis
  proof cases
    case 1
    then have "round_half_even n q = ?t" by (simp add: round_half_even_def Let_def)
    with n 1 show ?thesis by (simp add: algebra_simps)
  next
    case 2
    then have "round_half_even n q = Suc ?t" by (simp add: round_half_even_def Let_def)
    with n 2 r show ?thesis by (simp add: algebra_simps)
  next
    case 3
    then have "round_half_even n q = ?t \<or> round_half_even n q = Suc ?t"
      by (simp add: round_half_even_def Let_def)
    with n 3 r show ?thesis by (auto simp: algebra_simps)
  qed
qed

text \<open>The rounded product is within one part in \<open>2\<^sup>5\<^sup>3\<close> of the exact one.\<close>

lemma mul_double_error:
  "\<bar>double_value (mul_double c d) - real c * double_value d\<bar> \<le> real c * double_value d / 2 ^ 53"
proof (cases "excess_bits (c * mantissa d) = 0")
  case True
  then show ?thesis
    by (simp add: mul_double_def double_value_powi)
next
  case False
  let ?n = "c * mantissa d"
  let ?s = "excess_bits ?n"
  let ?t = "round_half_even ?n (2 ^ ?s)"
  from False have pos: "0 < ?s" by simp
  have v: "double_value (mul_double c d) = real ?t * 2 ^ ?s * 2 powi exponent d"
    using False by (simp add: mul_double_def double_value_powi Let_def power_int_add)
  have e: "real c * double_value d = real ?n * 2 powi exponent d"
    by (simp add: double_value_powi)
  have "2 * \<bar>real (?t * 2 ^ ?s) - real ?n\<bar> \<le> real (2 ^ ?s)"
    by (rule round_half_even_error) simp
  then have half: "\<bar>real ?t * 2 ^ ?s - real ?n\<bar> \<le> 2 ^ ?s / 2" by simp
  from excess_bits_lower [OF pos] have "(2::nat) ^ 52 * 2 ^ ?s \<le> ?n" .
  then have "real ((2::nat) ^ 52 * 2 ^ ?s) \<le> real ?n" by (rule of_nat_mono)
  then have "(2::real) ^ ?s * 2 ^ 52 \<le> real ?n" by (simp add: mult.commute)
  then have small: "(2::real) ^ ?s / 2 \<le> real ?n / 2 ^ 53" by (simp add: field_simps)
  have "\<bar>double_value (mul_double c d) - real c * double_value d\<bar>
      = \<bar>real ?t * 2 ^ ?s - real ?n\<bar> * 2 powi exponent d"
    by (simp add: v e abs_mult left_diff_distrib [symmetric] del: of_nat_mult)
  also have "\<dots> \<le> (real ?n / 2 ^ 53) * 2 powi exponent d"
    using half small by (intro mult_right_mono) simp_all
  also have "\<dots> = real c * double_value d / 2 ^ 53"
    by (simp add: e)
  finally show ?thesis .
qed

text \<open>The largest double below one is one minus \<open>2\<^sup>-\<^sup>5\<^sup>3\<close>.\<close>

lemma unit_draw_below_one: "unit_draw d \<Longrightarrow> double_value d \<le> 1 - 1 / 2 ^ 53"
proof -
  assume u: "unit_draw d"
  then have m: "mantissa d < 2 ^ 53" and lt: "double_value d < 1"
    by (simp_all add: unit_draw_def)
  show ?thesis
  proof (cases "0 \<le> exponent d")
    case True
    have "mantissa d = 0"
    proof (rule ccontr)
      assume "mantissa d \<noteq> 0"
      then have "1 \<le> real (mantissa d)" by simp
      moreover have "(1::real) \<le> 2 ^ nat (exponent d)" by simp
      ultimately have "1 * 1 \<le> real (mantissa d) * 2 ^ nat (exponent d)"
        by (rule mult_mono) simp_all
      with True lt show False by (simp add: double_value_def)
    qed
    with True show ?thesis by (simp add: double_value_def)
  next
    case False
    define j where "j = nat (- exponent d)"
    define p :: real where "p = 2 ^ j"
    have ppos: "0 < p" by (simp add: p_def)
    from False have v: "double_value d = real (mantissa d) / p"
      by (simp add: double_value_def j_def p_def)
    from lt v ppos have mp: "real (mantissa d) < p" by (simp add: divide_less_eq)
    show ?thesis
    proof (cases "j \<le> 53")
      case True
      from mp have "real (mantissa d) < real (2 ^ j)" by (simp add: p_def)
      then have "mantissa d < 2 ^ j" by (simp only: of_nat_less_iff)
      then have "Suc (mantissa d) \<le> 2 ^ j" by simp
      then have "real (Suc (mantissa d)) \<le> real (2 ^ j)" by (simp only: of_nat_le_iff)
      then have "real (mantissa d) + 1 \<le> p" by (simp add: p_def)
      then have "real (mantissa d) / p \<le> (p - 1) / p"
        using ppos by (intro divide_right_mono) simp_all
      also have "\<dots> = 1 - 1 / p" using ppos by (simp add: diff_divide_distrib)
      finally have a: "double_value d \<le> 1 - 1 / p" by (simp add: v)
      from True have "p \<le> 2 ^ 53"
        unfolding p_def by (intro power_increasing) simp_all
      then have "1 / (2::real) ^ 53 \<le> 1 / p"
        using ppos by (intro divide_left_mono) simp_all
      with a show ?thesis by linarith
    next
      case False
      then have "54 \<le> j" by simp
      then have "(2::real) ^ 54 \<le> p"
        unfolding p_def by (intro power_increasing) simp_all
      moreover from m have "real (mantissa d) < real (2 ^ 53)" by (simp only: of_nat_less_iff)
      then have "real (mantissa d) < 2 ^ 53" by simp
      ultimately have "real (mantissa d) * 2 \<le> p" by simp
      then have "real (mantissa d) / p \<le> 1 / 2"
        using ppos by (simp add: divide_le_eq)
      then have h: "double_value d \<le> 1 / 2" by (simp only: v)
      have "(1 / 2 :: real) \<le> 1 - 1 / 2 ^ 53" by simp
      with h show ?thesis by (rule order_trans)
    qed
  qed
qed

lemma mul_double_below:
  assumes "unit_draw d" and "0 < c"
  shows "double_value (mul_double c d) < real c"
proof -
  let ?x = "double_value d"
  from unit_draw_below_one [OF assms(1)] have x: "?x \<le> 1 - 1 / 2 ^ 53" .
  have x0: "0 \<le> ?x" by (rule double_value_nonneg)
  from mul_double_error [of c d]
  have "double_value (mul_double c d) \<le> real c * ?x + real c * ?x / 2 ^ 53"
    by linarith
  also have "\<dots> = real c * (?x * (1 + 1 / 2 ^ 53))" by (simp add: algebra_simps)
  also have "\<dots> \<le> real c * ((1 - 1 / 2 ^ 53) * (1 + 1 / 2 ^ 53))"
    using x by (intro mult_left_mono mult_right_mono) simp_all
  also have "\<dots> < real c * 1"
    using assms(2) by (intro mult_strict_left_mono) simp_all
  finally show ?thesis by simp
qed

lemma floor_near:
  assumes "Math_floor (mul_double c d) = j"
  shows "real_of_int j \<le> real c * double_value d * (1 + 1 / 2 ^ 53)
       \<and> real c * double_value d * (1 - 1 / 2 ^ 53) < real_of_int j + 1"
proof -
  let ?v = "double_value (mul_double c d)" and ?e = "real c * double_value d"
  from assms have "real_of_int j \<le> ?v" "?v < real_of_int j + 1"
    by (simp_all add: Math_floor_def floor_eq_iff)
  moreover from mul_double_error [of c d] have "?v \<le> ?e + ?e / 2 ^ 53" "?e - ?e / 2 ^ 53 \<le> ?v"
    by linarith+
  ultimately have "real_of_int j \<le> ?e + ?e / 2 ^ 53" "?e - ?e / 2 ^ 53 < real_of_int j + 1"
    by linarith+
  then show ?thesis by (simp add: algebra_simps)
qed

subsection \<open>The detection scores\<close>

lemma upto_29:
  "j \<le> 29 \<Longrightarrow> j \<in> set [0, 1, 2, 3, 4, 5, 6, 7, 8, 9, 10, 11, 12, 13, 14, 15, 16, 17, 18, 19,
     20, 21, 22, 23, 24, 25, 26, 27, 28, 29 :: nat]"
proof -
  assume "j \<le> 29"
  then have "j \<in> set [0 ..< 30]" by simp
  also have "[0 ..< 30] = [0, 1, 2, 3, 4, 5, 6, 7, 8, 9, 10, 11, 12, 13, 14, 15, 16, 17, 18, 19,
     20, 21, 22, 23, 24, 25, 26, 27, 28, 29 :: nat]" by code_simp
  finally show ?thesis .
qed

lemma detectgpt_score_attained:
  assumes "j \<le> 29"
  shows "unit_draw \<lparr>mantissa = (16 * j + 14) div 15, exponent = - 5\<rparr>
       \<and> detectgpt_score \<lparr>mantissa = (16 * j + 14) div 15, exponent = - 5\<rparr> = 65 + int j"
  using upto_29 [OF assms]
  by (auto simp: unit_draw_def double_value_def detectgpt_score_def Math_floor_def mul_double_def
        excess_bits.simps)

lemma fastdetect_score_attained:
  assumes "j \<le> 24"
  shows "unit_draw \<lparr>mantissa = (32 * j + 24) div 25, exponent = - 5\<rparr>
       \<and> fastdetect_score \<lparr>mantissa = (32 * j + 24) div 25, exponent = - 5\<rparr> = 70 + int j"
proof -
  from assms have "j \<le> 29" by simp
  from upto_29 [OF this] assms show ?thesis
    by (auto simp: unit_draw_def double_value_def fastdetect_score_def Math_floor_def
          mul_double_def excess_bits.simps)
qed

lemma detectgpt_score_range: "detectgpt_score ` {d. unit_draw d} = {65 .. 94}"
proof (intro equalityI subsetI)
  fix v assume "v \<in> detectgpt_score ` {d. unit_draw d}"
  then obtain d where d: "unit_draw d" and v: "v = detectgpt_score d" by auto
  from mul_double_below [OF d, of 30] have "double_value (mul_double 30 d) < 30" by simp
  then have "\<lfloor>double_value (mul_double 30 d)\<rfloor> < 30" by (simp add: floor_less_iff)
  moreover have "0 \<le> \<lfloor>double_value (mul_double 30 d)\<rfloor>"
    using double_value_nonneg [of "mul_double 30 d"] by simp
  ultimately show "v \<in> {65 .. 94}"
    by (simp add: v detectgpt_score_def Math_floor_def)
next
  fix v :: int assume "v \<in> {65 .. 94}"
  then have "65 \<le> v" "v \<le> 94" by simp_all
  then have j: "nat (v - 65) \<le> 29" and v: "65 + int (nat (v - 65)) = v" by linarith+
  from detectgpt_score_attained [OF j] v show "v \<in> detectgpt_score ` {d. unit_draw d}"
    by (metis (mono_tags, lifting) image_eqI mem_Collect_eq)
qed

lemma fastdetect_score_range: "fastdetect_score ` {d. unit_draw d} = {70 .. 94}"
proof (intro equalityI subsetI)
  fix v assume "v \<in> fastdetect_score ` {d. unit_draw d}"
  then obtain d where d: "unit_draw d" and v: "v = fastdetect_score d" by auto
  from mul_double_below [OF d, of 25] have "double_value (mul_double 25 d) < 25" by simp
  then have "\<lfloor>double_value (mul_double 25 d)\<rfloor> < 25" by (simp add: floor_less_iff)
  moreover have "0 \<le> \<lfloor>double_value (mul_double 25 d)\<rfloor>"
    using double_value_nonneg [of "mul_double 25 d"] by simp
  ultimately show "v \<in> {70 .. 94}"
    by (simp add: v fastdetect_score_def Math_floor_def)
next
  fix v :: int assume "v \<in> {70 .. 94}"
  then have "70 \<le> v" "v \<le> 94" by simp_all
  then have j: "nat (v - 70) \<le> 24" and v: "70 + int (nat (v - 70)) = v" by linarith+
  from fastdetect_score_attained [OF j] v show "v \<in> fastdetect_score ` {d. unit_draw d}"
    by (metis (mono_tags, lifting) image_eqI mem_Collect_eq)
qed

text \<open>
  C7, as the code has it. A render that starts at position \<open>k\<close> of the draws shows for the
  first widget the score of draw \<open>k\<close> and for the second the score of draw \<open>k + 1\<close>:
  each widget has a draw of its own, so the two values are as independent and as uniform as
  the calls of \<^verbatim>\<open>Math.random\<close> are. Neither value depends on the record, on the other
  draws or on how the page prints dates and numbers. Over the doubles in \<open>[0, 1)\<close> the first
  score takes exactly the values 65 to 94 and the second exactly 70 to 94. A score is the
  whole part of thirty (twenty-five) times the draw up to the rounding of the product, one
  part in \<open>2\<^sup>5\<^sup>3\<close>, so the draws of each value fill an interval of nearly the same length.
\<close>

theorem detection_scores_are_draws:
  "detectgpt (fst (render_report tls tlds nts rnd k r)) = detectgpt_score (rnd k)
   \<and> fastdetect (fst (render_report tls tlds nts rnd k r)) = fastdetect_score (rnd (k + 1))
   \<and> (rnd' k = rnd k \<longrightarrow>
        detectgpt (fst (render_report tls' tlds' nts' rnd' k r'))
          = detectgpt (fst (render_report tls tlds nts rnd k r)))
   \<and> (rnd' (k + 1) = rnd (k + 1) \<longrightarrow>
        fastdetect (fst (render_report tls' tlds' nts' rnd' k r'))
          = fastdetect (fst (render_report tls tlds nts rnd k r)))
   \<and> detectgpt_score ` {d. unit_draw d} = {65 .. 94}
   \<and> fastdetect_score ` {d. unit_draw d} = {70 .. 94}
   \<and> (detectgpt_score d = 65 + j \<longrightarrow>
        real_of_int j \<le> 30 * double_value d * (1 + 1 / 2 ^ 53)
        \<and> 30 * double_value d * (1 - 1 / 2 ^ 53) < real_of_int j + 1)
   \<and> (fastdetect_score d = 70 + j \<longrightarrow>
        real_of_int j \<le> 25 * double_value d * (1 + 1 / 2 ^ 53)
        \<and> 25 * double_value d * (1 - 1 / 2 ^ 53) < real_of_int j + 1)"
proof -
  have s: "detectgpt (fst (render_report a b c f k y)) = detectgpt_score (f k)"
    "fastdetect (fst (render_report a b c f k y)) = fastdetect_score (f (k + 1))" for a b c f y
    by (simp_all add: render_report_def split_beta)
  have n1: "detectgpt_score d = 65 + j \<longrightarrow>
      real_of_int j \<le> 30 * double_value d * (1 + 1 / 2 ^ 53)
      \<and> 30 * double_value d * (1 - 1 / 2 ^ 53) < real_of_int j + 1"
    using floor_near [of 30 d j] by (simp add: detectgpt_score_def)
  have n2: "fastdetect_score d = 70 + j \<longrightarrow>
      real_of_int j \<le> 25 * double_value d * (1 + 1 / 2 ^ 53)
      \<and> 25 * double_value d * (1 - 1 / 2 ^ 53) < real_of_int j + 1"
    using floor_near [of 25 d j] by (simp add: fastdetect_score_def)
  from n1 n2 detectgpt_score_range fastdetect_score_range show ?thesis
    by (simp only: s) simp
qed

theorem detection_scores_are_draws_witness:
  "detectgpt (fst (render_report id id numberToString_example draws_double 0 record_a1)) = 80
   \<and> fastdetect (fst (render_report id id numberToString_example draws_double 0 record_a1)) = 73
   \<and> detectgpt (fst (render_report id id numberToString_example draws_double 0 record_a2)) = 80
   \<and> fastdetect (fst (render_report id id numberToString_example draws_double 0 record_a2)) = 73
   \<and> unit_draw \<lparr>mantissa = 5404319552844595, exponent = - 54\<rparr>
   \<and> detectgpt_score \<lparr>mantissa = 5404319552844595, exponent = - 54\<rparr> = 74
   \<and> unit_draw \<lparr>mantissa = 8646911284551352, exponent = - 56\<rparr>
   \<and> fastdetect_score \<lparr>mantissa = 8646911284551352, exponent = - 56\<rparr> = 73
   \<and> unit_draw \<lparr>mantissa = 9007199254740991, exponent = - 53\<rparr>
   \<and> detectgpt_score \<lparr>mantissa = 9007199254740991, exponent = - 53\<rparr> = 94
   \<and> fastdetect_score \<lparr>mantissa = 9007199254740991, exponent = - 53\<rparr> = 94
   \<and> detectgpt_score \<lparr>mantissa = 0, exponent = 0\<rparr> = 65
   \<and> fastdetect_score \<lparr>mantissa = 0, exponent = 0\<rparr> = 70"
  using detection_scores_are_draws
      [where tls = id and tlds = id and nts = numberToString_example and rnd = draws_double
         and k = 0 and r = record_a1 and tls' = id and tlds' = id and nts' = numberToString_example
         and rnd' = draws_double and r' = record_a2
         and d = "\<lparr>mantissa = 5404319552844595, exponent = - 54\<rparr>" and j = 9]
  by (simp add: draws_double_def detectgpt_score_def fastdetect_score_def Math_floor_def
        mul_double_def excess_bits.simps round_half_even_def Let_def double_value_def
        unit_draw_def)

text \<open>
  The spec's ranges reach 95, which no draw gives: the largest score of either widget is 94.
\<close>

theorem detection_scores_reach_95_counterexample:
  "95 \<notin> detectgpt_score ` {d. unit_draw d} \<and> 95 \<notin> fastdetect_score ` {d. unit_draw d}
   \<and> detectgpt_score ` {d. unit_draw d} \<noteq> {65 .. 95}
   \<and> fastdetect_score ` {d. unit_draw d} \<noteq> {70 .. 95}"
proof -
  have "(95::int) \<in> {65 .. 95}" "(95::int) \<in> {70 .. 95}" by simp_all
  moreover have "95 \<notin> detectgpt_score ` {d. unit_draw d}" "95 \<notin> fastdetect_score ` {d. unit_draw d}"
    by (simp_all add: detectgpt_score_range fastdetect_score_range)
  ultimately show ?thesis by metis
qed

subsection \<open>Word highlighting\<close>

lemma render_words_snd: "snd (render_words rnd k ai ws) = k + length ws"
  by (induction ws arbitrary: k) (simp_all add: split_beta Let_def)

lemma render_words_length: "length (fst (render_words rnd k ai ws)) = length ws"
  by (induction ws arbitrary: k) (simp_all add: split_beta Let_def)

lemma render_words_nth:
  "j < length ws \<Longrightarrow>
     fst (render_words rnd k ai ws) ! j =
       \<lparr>word_class = (if shouldHighlight (rnd (k + j)) \<and> ai then suspect_class else []),
        word_text = ws ! j @ '' ''\<rparr>"
proof (induction ws arbitrary: k j)
  case Nil
  then show ?case by simp
next
  case (Cons w ws)
  show ?case
  proof (cases j)
    case 0
    then show ?thesis by (simp add: split_beta Let_def)
  next
    case (Suc i)
    with Cons.prems have "i < length ws" by simp
    from Cons.IH [OF this, of "Suc k"] Suc show ?thesis
      by (simp add: split_beta Let_def)
  qed
qed

lemma render_words_append:
  "fst (render_words rnd k ai (xs @ ys)) =
     fst (render_words rnd k ai xs) @ fst (render_words rnd (k + length xs) ai ys)"
  by (induction xs arbitrary: k) (simp_all add: split_beta Let_def)

lemma render_paragraphs_concat:
  "concat (fst (render_paragraphs rnd k ai ps)) =
     fst (render_words rnd k ai (concat (map (split CHR '' '') ps)))"
  by (induction ps arbitrary: k)
     (simp_all add: split_beta Let_def render_words_append render_words_snd)

lemma render_paragraphs_texts:
  "map (map word_text) (fst (render_paragraphs rnd k ai ps)) =
     map (\<lambda>p. map (\<lambda>w. w @ '' '') (split CHR '' '' p)) ps"
proof (induction ps arbitrary: k)
  case Nil
  then show ?case by simp
next
  case (Cons p ps)
  have "map word_text (fst (render_words rnd k ai ws)) = map (\<lambda>w. w @ '' '') ws" for k ws
    by (induction ws arbitrary: k) (simp_all add: split_beta Let_def)
  with Cons show ?case by (simp add: split_beta Let_def)
qed

lemma seven_tenths_value:
  "double_value seven_tenths = 6305039478318694 / 2 ^ 53"
  "\<bar>double_value seven_tenths - 7 / 10\<bar> < 1 / 2 ^ 54"
  by (simp_all add: seven_tenths_def double_value_def)

text \<open>
  C9, as the code has it. The content is cut into paragraphs at line breaks and each
  paragraph into words at the space character (and at no other white space), and every such
  word is rendered once, in order, as a span of its own. The word at position \<open>j\<close> of the
  whole text is marked as suspect exactly when its own draw, the one at position
  \<open>k + 2 + j\<close>, is above the double 0.7 and the record is classified as machine-produced.
  So a marked word implies that classification, a record classified as human-produced has
  no marked word whatever the draws are, and the draws that mark a word are those above a
  bound within \<open>2\<^sup>-\<^sup>5\<^sup>4\<close> of seven tenths, three tenths of \<open>[0, 1)\<close>.
\<close>

theorem words_marked_only_when_machine_produced:
  assumes "j < length (concat (map (split CHR '' '') (split CHR ''\<newline>'' (content r))))"
  shows "map (map word_text) (paragraphs (fst (render_report tls tlds nts rnd k r)))
           = map (\<lambda>p. map (\<lambda>w. w @ '' '') (split CHR '' '' p)) (split CHR ''\<newline>'' (content r))
       \<and> length (concat (paragraphs (fst (render_report tls tlds nts rnd k r))))
           = length (concat (map (split CHR '' '') (split CHR ''\<newline>'' (content r))))
       \<and> word_text (concat (paragraphs (fst (render_report tls tlds nts rnd k r))) ! j)
           = concat (map (split CHR '' '') (split CHR ''\<newline>'' (content r))) ! j @ '' ''
       \<and> word_class (concat (paragraphs (fst (render_report tls tlds nts rnd k r))) ! j)
           = (if shouldHighlight (rnd (k + 2 + j)) \<and> is_ai_generated r then suspect_class else [])
       \<and> (word_class (concat (paragraphs (fst (render_report tls tlds nts rnd k r))) ! j) = suspect_class
            \<longrightarrow> is_ai_generated r)
       \<and> (\<not> is_ai_generated r \<longrightarrow>
            (\<forall>sp \<in> set (concat (paragraphs (fst (render_report tls tlds nts rnd k r)))). word_class sp = []))
       \<and> shouldHighlight d = (6305039478318694 / 2 ^ 53 < double_value d)
       \<and> \<bar>6305039478318694 / 2 ^ 53 - 7 / 10 :: real\<bar> < 1 / 2 ^ 54"
proof -
  let ?ws = "concat (map (split CHR '' '') (split CHR ''\<newline>'' (content r)))"
  let ?spans = "concat (paragraphs (fst (render_report tls tlds nts rnd k r)))"
  have ps: "paragraphs (fst (render_report tls tlds nts rnd k r))
      = fst (render_paragraphs rnd (k + 2) (is_ai_generated r) (split CHR ''\<newline>'' (content r)))"
    by (simp add: render_report_def split_beta)
  have spans: "?spans = fst (render_words rnd (k + 2) (is_ai_generated r) ?ws)"
    by (simp only: ps render_paragraphs_concat)
  have len: "length ?spans = length ?ws"
    by (simp only: spans render_words_length)
  have nth: "?spans ! i
      = \<lparr>word_class = (if shouldHighlight (rnd (k + 2 + i)) \<and> is_ai_generated r then suspect_class else []),
         word_text = ?ws ! i @ '' ''\<rparr>"
    if "i < length ?ws" for i
    using render_words_nth [OF that, of rnd "k + 2" "is_ai_generated r"]
    by (simp only: spans)
  have texts: "map (map word_text) (paragraphs (fst (render_report tls tlds nts rnd k r)))
      = map (\<lambda>p. map (\<lambda>w. w @ '' '') (split CHR '' '' p)) (split CHR ''\<newline>'' (content r))"
    by (simp only: ps render_paragraphs_texts)
  have ne: "suspect_class \<noteq> []" by (simp add: suspect_class_def)
  have wtext: "word_text (?spans ! j) = ?ws ! j @ '' ''"
    by (simp add: nth [OF assms])
  have cls: "word_class (?spans ! j)
      = (if shouldHighlight (rnd (k + 2 + j)) \<and> is_ai_generated r then suspect_class else [])"
    by (simp add: nth [OF assms])
  have one: "word_class (?spans ! j) = suspect_class \<longrightarrow> is_ai_generated r"
    using cls ne by (auto split: if_splits)
  have none: "\<not> is_ai_generated r \<longrightarrow> (\<forall>sp \<in> set ?spans. word_class sp = [])"
  proof (intro impI ballI)
    fix sp assume h: "\<not> is_ai_generated r" and "sp \<in> set ?spans"
    then obtain i where "i < length ?spans" and "sp = ?spans ! i"
      by (metis in_set_conv_nth)
    with nth [of i] len h show "word_class sp = []" by simp
  qed
  have thr: "shouldHighlight d = (6305039478318694 / 2 ^ 53 < double_value d)"
    by (simp only: shouldHighlight_def seven_tenths_value(1))
  have near: "\<bar>6305039478318694 / 2 ^ 53 - 7 / 10 :: real\<bar> < 1 / 2 ^ 54"
    by simp
  from texts len wtext cls one none thr near show ?thesis
    by (intro conjI)
qed

theorem words_marked_only_when_machine_produced_witness:
  "(3::nat) < length (concat (map (split CHR '' '') (split CHR ''\<newline>'' (content record_a1))))
   \<and> concat (map (split CHR '' '') (split CHR ''\<newline>'' (content record_a1)))
      = [''one'', [], ''two'', ''three'']
   \<and> paragraphs (fst (render_report id id numberToString_example draws_double 0 record_a1))
      = [[\<lparr>word_class = suspect_class, word_text = ''one ''\<rparr>,
          \<lparr>word_class = [], word_text = '' ''\<rparr>,
          \<lparr>word_class = suspect_class, word_text = ''two ''\<rparr>],
         [\<lparr>word_class = [], word_text = ''three ''\<rparr>]]
   \<and> draws_double (0 + 2 + 3) = seven_tenths
   \<and> \<not> shouldHighlight seven_tenths
   \<and> shouldHighlight \<lparr>mantissa = 6305039478318695, exponent = - 53\<rparr>
   \<and> is_ai_generated record_a1
   \<and> paragraphs (fst (render_report id id numberToString_example draws_double 0 record_a2))
      = [[\<lparr>word_class = [], word_text = ''four ''\<rparr>]]"
  using words_marked_only_when_machine_produced
      [where j = 3 and tls = id and tlds = id and nts = numberToString_example
         and rnd = draws_double and k = 0 and r = record_a1 and d = seven_tenths]
  by (simp add: render_report_def record_a1_def record_a2_def draws_double_def shouldHighlight_def
        seven_tenths_def double_value_def split_beta Let_def)

text \<open>
  The claim as the spec words it cuts words at white space. The content \<^verbatim>\<open>a\<close>, tab,
  \<^verbatim>\<open>b\<close> has two such words; the page renders it as one span, tab inside, with one draw
  and one mark for both.
\<close>

theorem words_split_at_spaces_only_counterexample:
  "content record_a3 = [CHR ''a'', CHR 0x09, CHR ''b'']
   \<and> paragraphs (fst (render_report id id numberToString_example draws_double 0 record_a3))
      = [[\<lparr>word_class = suspect_class, word_text = [CHR ''a'', CHR 0x09, CHR ''b'', CHR '' '']\<rparr>]]
   \<and> length (concat (paragraphs (fst (render_report id id numberToString_example draws_double 0 record_a3))))
      = 1"
  by (simp add: render_report_def record_a3_def draws_double_def shouldHighlight_def
        seven_tenths_def double_value_def split_beta Let_def)

end
